theory Spec2Isabelle
  imports Complex_Main "HOL-Library.Sublist"
begin

section \<open>Data model of the live-session hook\<close>

text \<open>
  The development embeds \<^verbatim>\<open>src/hooks/use-gemini-live.ts\<close>. The hook keeps four pieces of
  React state (\<open>isConnected\<close>, \<open>messages\<close>, \<open>volume\<close>, \<open>error\<close>) and nine refs. All of them
  are fields of one record that every handler takes and returns. Functional state updates
  (\<^verbatim>\<open>setMessages(prev => ...)\<close>) are applied in call order, at the call.

  Browser and SDK objects (audio contexts, the media stream, the script processor, buffer
  sources, the session promise) are object identities: natural numbers. The calls the hook
  makes on them are appended to the field \<open>trace\<close>, which the source does not have: it records
  what the hook did to the outside world, in order.
\<close>

type_synonym handle = nat

datatype role = User | Model | System

text \<open>\<^verbatim>\<open>Message\<close> of the type declarations. \<open>isPartial\<close> is optional there.\<close>

record message =
  msg_id :: string
  role :: role
  msg_text :: string
  timestamp :: nat
  isPartial :: "bool option"

text \<open>A thrown JavaScript value, with its \<^verbatim>\<open>.message\<close> (absent, or a string).\<close>

datatype exn = Exn "string option"

fun exn_message :: "exn \<Rightarrow> string option" where
  "exn_message (Exn m) = m"

text \<open>
  A JavaScript number: a finite value, one of the two infinities, or NaN. The two zeros are
  not told apart. The finite values are reals; which of them the machine has, and how it
  rounds the result of an operation to one, is the \<open>rounding\<close> the arithmetic below is
  given: it takes the exact result to the number the operation returns.
\<close>

datatype js_number = Finite real | PosInf | NegInf | NaN

type_synonym rounding = "real \<Rightarrow> js_number"

datatype effect =
    ContextClose handle
  | TracksStop handle
  | ProcessorDisconnect handle
  | SourceStop handle
  | SessionClose handle
  | SourceStart handle real
  | NewAudioContext nat
  | NewGoogleGenAI
  | GetUserMedia
  | LiveConnect string string
  | CreateScriptProcessor handle handle handle
  | SendRealtimeInput "js_number list"

record state =
  isConnected :: bool
  messages :: "message list"
  volume :: js_number
  error :: "string option"
  inputAudioContextRef :: "handle option"
  outputAudioContextRef :: "handle option"
  mediaStreamRef :: "handle option"
  scriptProcessorRef :: "handle option"
  sessionPromiseRef :: "handle option"
  nextStartTimeRef :: real
  sourcesRef :: "handle list"
  currentInputTranscriptionRef :: string
  currentOutputTranscriptionRef :: string
  trace :: "effect list"

text \<open>The state of a freshly mounted hook: the initial values of \<^verbatim>\<open>useState\<close> and \<^verbatim>\<open>useRef\<close>.\<close>

definition initial :: state where
  "initial = \<lparr> isConnected = False, messages = [], volume = Finite 0, error = None,
     inputAudioContextRef = None, outputAudioContextRef = None, mediaStreamRef = None,
     scriptProcessorRef = None, sessionPromiseRef = None, nextStartTimeRef = 0,
     sourcesRef = [], currentInputTranscriptionRef = [], currentOutputTranscriptionRef = [],
     trace = [] \<rparr>"

text \<open>
  What the platform answers during one handler call: the clock of an audio context, the
  wall clock (\<^verbatim>\<open>Date.now()\<close>, also taken for \<^verbatim>\<open>new Date()\<close>), the outcome of
  \<^verbatim>\<open>decodeAudioData(decode(data), ctx, 24000, 1)\<close> (the duration of the buffer, or what it
  throws; both functions are imported from \<^verbatim>\<open>utils/audio-utils\<close>), the objects that
  \<^verbatim>\<open>createBufferSource\<close>, \<^verbatim>\<open>createMediaStreamSource\<close> and \<^verbatim>\<open>createScriptProcessor\<close> return, and
  whether \<^verbatim>\<open>stop()\<close> throws on a given source.
\<close>

record env =
  currentTime :: "handle \<Rightarrow> real"
  dateNow :: nat
  decodeAudioData :: "string \<Rightarrow> exn + real"
  createBufferSource :: handle
  createMediaStreamSource :: handle
  createScriptProcessor :: handle
  stopThrows :: "handle \<Rightarrow> bool"

text \<open>A JavaScript \<^verbatim>\<open>Set\<close> of objects, in insertion order.\<close>

definition set_add :: "handle \<Rightarrow> handle list \<Rightarrow> handle list" where
  "set_add x xs = (if x \<in> set xs then xs else xs @ [x])"

definition set_delete :: "handle \<Rightarrow> handle list \<Rightarrow> handle list" where
  "set_delete x xs = removeAll x xs"

text \<open>\<^verbatim>\<open>a || b\<close> on an optional string: the empty string and \<^verbatim>\<open>undefined\<close> are falsy.\<close>

fun or_else :: "string option \<Rightarrow> string \<Rightarrow> string" where
  "or_else None d = d"
| "or_else (Some t) d = (if t = [] then d else t)"

section \<open>Teardown\<close>

text \<open>\<^verbatim>\<open>source.stop()\<close>: the call is made, and it may throw.\<close>

definition source_stop :: "env \<Rightarrow> handle \<Rightarrow> exn + unit" where
  "source_stop e src = (if stopThrows e src then Inl (Exn (Some ''InvalidStateError'')) else Inr ())"

text \<open>
  \<^verbatim>\<open>for (const source of sourcesRef.current) { try { source.stop(); } catch (e) {} }\<close>:
  the loop over the set, one guarded call for each source.
\<close>

fun stop_sources :: "env \<Rightarrow> handle list \<Rightarrow> effect list \<Rightarrow> effect list" where
  "stop_sources e [] tr = tr"
| "stop_sources e (src # rest) tr =
     (case source_stop e src of
        Inl err \<Rightarrow> stop_sources e rest (tr @ [SourceStop src])
      | Inr u \<Rightarrow> stop_sources e rest (tr @ [SourceStop src]))"

definition close_input_context :: "state \<Rightarrow> state" where
  "close_input_context s =
     (case inputAudioContextRef s of
        None \<Rightarrow> s
      | Some c \<Rightarrow> s\<lparr>inputAudioContextRef := None, trace := trace s @ [ContextClose c]\<rparr>)"

definition close_output_context :: "state \<Rightarrow> state" where
  "close_output_context s =
     (case outputAudioContextRef s of
        None \<Rightarrow> s
      | Some c \<Rightarrow> s\<lparr>outputAudioContextRef := None, trace := trace s @ [ContextClose c]\<rparr>)"

definition stop_media_stream :: "state \<Rightarrow> state" where
  "stop_media_stream s =
     (case mediaStreamRef s of
        None \<Rightarrow> s
      | Some m \<Rightarrow> s\<lparr>mediaStreamRef := None, trace := trace s @ [TracksStop m]\<rparr>)"

definition disconnect_processor :: "state \<Rightarrow> state" where
  "disconnect_processor s =
     (case scriptProcessorRef s of
        None \<Rightarrow> s
      | Some p \<Rightarrow> s\<lparr>scriptProcessorRef := None, trace := trace s @ [ProcessorDisconnect p]\<rparr>)"

definition stop_all_sources :: "env \<Rightarrow> state \<Rightarrow> state" where
  "stop_all_sources e s = s\<lparr>sourcesRef := [], trace := stop_sources e (sourcesRef s) (trace s)\<rparr>"

text \<open>
  The session is closed in a continuation of the session promise, whose rejection is caught:
  the request is recorded, nothing can be thrown back into \<open>disconnect\<close>.
\<close>

definition close_session :: "state \<Rightarrow> state" where
  "close_session s =
     (case sessionPromiseRef s of
        None \<Rightarrow> s
      | Some p \<Rightarrow> s\<lparr>sessionPromiseRef := None, trace := trace s @ [SessionClose p]\<rparr>)"

text \<open>
  \<open>disconnect\<close>, steps 1 to 5 and the resets, in the order of the source. The first component
  of the result is what the call throws, if anything. \<^verbatim>\<open>AudioContext.close()\<close>,
  \<^verbatim>\<open>MediaStreamTrack.stop()\<close> and \<^verbatim>\<open>AudioNode.disconnect()\<close> do not throw; the one call that
  can, \<^verbatim>\<open>source.stop()\<close>, is guarded in \<open>stop_sources\<close>.
\<close>

definition disconnect :: "env \<Rightarrow> state \<Rightarrow> exn option \<times> state" where
  "disconnect e s =
     (let s1 = close_input_context s;
          s2 = close_output_context s1;
          s3 = stop_media_stream s2;
          s4 = disconnect_processor s3;
          s5 = stop_all_sources e s4;
          s6 = close_session s5
      in (None, s6\<lparr>isConnected := False, volume := Finite 0,
                   currentInputTranscriptionRef := [], currentOutputTranscriptionRef := []\<rparr>))"

section \<open>Terminal events of the session\<close>

text \<open>\<open>onerror\<close> gets the event's \<^verbatim>\<open>.message\<close>; \<open>onclose\<close> only logs its argument.\<close>

definition onerror :: "string option \<Rightarrow> state \<Rightarrow> state" where
  "onerror m s = s\<lparr>error := Some (or_else m ''An error occurred''), isConnected := False\<rparr>"

definition onclose :: "state \<Rightarrow> state" where
  "onclose s = s\<lparr>isConnected := False\<rparr>"

section \<open>The message handler\<close>

text \<open>
  \<^verbatim>\<open>LiveServerMessage\<close>, as far as the handler reads it. \<open>modelTurn\<close> is absent, or holds
  \<^verbatim>\<open>parts\<close>, which is absent or a list; a part is the value of \<^verbatim>\<open>inlineData?.data\<close>. The two
  transcription fields hold the value of \<^verbatim>\<open>.text\<close>.
\<close>

record server_content =
  modelTurn :: "string option list option option"
  outputTranscription :: "string option"
  inputTranscription :: "string option"
  turnComplete :: bool
  interrupted :: bool

type_synonym server_message = "server_content option"

text \<open>
  \<^verbatim>\<open>message.serverContent?.modelTurn?.parts[0]?.inlineData?.data\<close>: \<^verbatim>\<open>parts\<close> is indexed
  without \<^verbatim>\<open>?.\<close>, so a model turn without parts throws a TypeError.
\<close>

definition base64Audio :: "server_message \<Rightarrow> exn + string option" where
  "base64Audio msg =
     (case msg of
        None \<Rightarrow> Inr None
      | Some c \<Rightarrow>
          (case modelTurn c of
             None \<Rightarrow> Inr None
           | Some None \<Rightarrow> Inl (Exn (Some ''TypeError''))
           | Some (Some []) \<Rightarrow> Inr None
           | Some (Some (p # ps)) \<Rightarrow> Inr p))"

text \<open>
  The audio branch: the timeline is raised to the clock before the buffer is decoded, the
  source is started at the timeline, the timeline advances by the buffer's duration, and the
  source joins the tracked set. A failed decode rejects the handler after the first step.
\<close>

definition handle_audio :: "env \<Rightarrow> server_message \<Rightarrow> state \<Rightarrow> exn option \<times> state" where
  "handle_audio e msg s =
     (case base64Audio msg of
        Inl err \<Rightarrow> (Some err, s)
      | Inr None \<Rightarrow> (None, s)
      | Inr (Some d) \<Rightarrow>
          (case outputAudioContextRef s of
             None \<Rightarrow> (None, s)
           | Some ctx \<Rightarrow>
               if d = [] then (None, s)
               else
                 let s1 = s\<lparr>nextStartTimeRef := max (nextStartTimeRef s) (currentTime e ctx)\<rparr>
                 in (case decodeAudioData e d of
                       Inl err \<Rightarrow> (Some err, s1)
                     | Inr duration \<Rightarrow>
                         let source = createBufferSource e
                         in (None, s1\<lparr>trace := trace s1 @ [SourceStart source (nextStartTimeRef s1)],
                                     nextStartTimeRef := nextStartTimeRef s1 + duration,
                                     sourcesRef := set_add source (sourcesRef s1)\<rparr>))))"

text \<open>The \<^verbatim>\<open>ended\<close> listener of a source removes it from the tracked set.\<close>

definition source_ended :: "handle \<Rightarrow> state \<Rightarrow> state" where
  "source_ended source s = s\<lparr>sourcesRef := set_delete source (sourcesRef s)\<rparr>"

text \<open>\<^verbatim>\<open>Date.now().toString()\<close>: the decimal digits.\<close>

fun toString :: "nat \<Rightarrow> string" where
  "toString n =
     (if n < 10 then [''0123456789'' ! n]
      else toString (n div 10) @ [''0123456789'' ! (n mod 10)])"

declare toString.simps [simp del]

text \<open>
  The updater both transcription branches pass to \<^verbatim>\<open>setMessages\<close>: the last message is
  replaced when it has the fragment's role and is partial, a new partial message is appended
  otherwise. \<open>buf\<close> is the accumulation buffer of the role.
\<close>

definition accumulate :: "role \<Rightarrow> string \<Rightarrow> nat \<Rightarrow> message list \<Rightarrow> message list" where
  "accumulate r buf now prev =
     (if prev \<noteq> [] \<and> role (last prev) = r \<and> isPartial (last prev) = Some True
      then butlast prev @ [(last prev)\<lparr>msg_text := buf\<rparr>]
      else prev @ [\<lparr>msg_id = toString now, role = r, msg_text = buf, timestamp = now,
                    isPartial = Some True\<rparr>])"

definition handle_output_transcription :: "env \<Rightarrow> server_message \<Rightarrow> state \<Rightarrow> state" where
  "handle_output_transcription e msg s =
     (case msg of
        None \<Rightarrow> s
      | Some c \<Rightarrow>
          (case outputTranscription c of
             None \<Rightarrow> s
           | Some t \<Rightarrow>
               if t = [] then s
               else
                 let buf = currentOutputTranscriptionRef s @ t
                 in s\<lparr>currentOutputTranscriptionRef := buf,
                      messages := accumulate Model buf (dateNow e) (messages s)\<rparr>))"

definition handle_input_transcription :: "env \<Rightarrow> server_message \<Rightarrow> state \<Rightarrow> state" where
  "handle_input_transcription e msg s =
     (case msg of
        None \<Rightarrow> s
      | Some c \<Rightarrow>
          (case inputTranscription c of
             None \<Rightarrow> s
           | Some t \<Rightarrow>
               if t = [] then s
               else
                 let buf = currentInputTranscriptionRef s @ t
                 in s\<lparr>currentInputTranscriptionRef := buf,
                      messages := accumulate User buf (dateNow e) (messages s)\<rparr>))"

definition finalize :: "message list \<Rightarrow> message list" where
  "finalize prev = map (\<lambda>m. m\<lparr>isPartial := Some False\<rparr>) prev"

definition is_turn_complete :: "server_message \<Rightarrow> bool" where
  "is_turn_complete msg = (case msg of None \<Rightarrow> False | Some c \<Rightarrow> turnComplete c)"

definition is_interrupted :: "server_message \<Rightarrow> bool" where
  "is_interrupted msg = (case msg of None \<Rightarrow> False | Some c \<Rightarrow> interrupted c)"

definition handle_turn_complete :: "server_message \<Rightarrow> state \<Rightarrow> state" where
  "handle_turn_complete msg s =
     (if is_turn_complete msg
      then s\<lparr>messages := finalize (messages s),
             currentInputTranscriptionRef := [], currentOutputTranscriptionRef := []\<rparr>
      else s)"

definition reset_timeline :: "env \<Rightarrow> state \<Rightarrow> state" where
  "reset_timeline e s =
     (case outputAudioContextRef s of
        None \<Rightarrow> s
      | Some ctx \<Rightarrow> s\<lparr>nextStartTimeRef := currentTime e ctx\<rparr>)"

definition handle_interrupted :: "env \<Rightarrow> server_message \<Rightarrow> state \<Rightarrow> state" where
  "handle_interrupted e msg s =
     (if is_interrupted msg
      then
        let s1 = stop_all_sources e s;
            s2 = reset_timeline e s1
        in s2\<lparr>messages := finalize (messages s2),
               currentInputTranscriptionRef := [], currentOutputTranscriptionRef := []\<rparr>
      else s)"

text \<open>
  \<open>onmessage\<close>: the audio branch, then the two transcription branches, turn complete and
  interruption, in the order of the source. When the audio branch throws, the \<^verbatim>\<open>async\<close>
  handler rejects and the rest does not run. A call runs to its end before the next event
  is handled: what another handler could do while this one awaits the decoded buffer is not
  part of the model.
\<close>

definition onmessage :: "env \<Rightarrow> server_message \<Rightarrow> state \<Rightarrow> exn option \<times> state" where
  "onmessage e msg s =
     (case handle_audio e msg s of
        (Some err, s1) \<Rightarrow> (Some err, s1)
      | (None, s1) \<Rightarrow>
          (None, handle_interrupted e msg
                   (handle_turn_complete msg
                     (handle_input_transcription e msg
                       (handle_output_transcription e msg s1)))))"

section \<open>Capture\<close>

text \<open>
  The arithmetic of \<open>onaudioprocess\<close> on JavaScript numbers: product, sum, division by the
  length of the frame, \<^verbatim>\<open>Math.sqrt\<close> and \<^verbatim>\<open>Math.min(1, x)\<close>. NaN goes through every one of
  them, and the code has no test for it.
\<close>

fun js_times :: "rounding \<Rightarrow> js_number \<Rightarrow> js_number \<Rightarrow> js_number" where
  "js_times rnd NaN b = NaN"
| "js_times rnd a NaN = NaN"
| "js_times rnd (Finite x) (Finite y) = rnd (x * y)"
| "js_times rnd (Finite x) PosInf = (if x = 0 then NaN else if 0 < x then PosInf else NegInf)"
| "js_times rnd (Finite x) NegInf = (if x = 0 then NaN else if 0 < x then NegInf else PosInf)"
| "js_times rnd PosInf (Finite y) = (if y = 0 then NaN else if 0 < y then PosInf else NegInf)"
| "js_times rnd NegInf (Finite y) = (if y = 0 then NaN else if 0 < y then NegInf else PosInf)"
| "js_times rnd PosInf PosInf = PosInf"
| "js_times rnd PosInf NegInf = NegInf"
| "js_times rnd NegInf PosInf = NegInf"
| "js_times rnd NegInf NegInf = PosInf"

fun js_plus :: "rounding \<Rightarrow> js_number \<Rightarrow> js_number \<Rightarrow> js_number" where
  "js_plus rnd NaN b = NaN"
| "js_plus rnd a NaN = NaN"
| "js_plus rnd (Finite x) (Finite y) = rnd (x + y)"
| "js_plus rnd (Finite x) PosInf = PosInf"
| "js_plus rnd (Finite x) NegInf = NegInf"
| "js_plus rnd PosInf (Finite y) = PosInf"
| "js_plus rnd NegInf (Finite y) = NegInf"
| "js_plus rnd PosInf PosInf = PosInf"
| "js_plus rnd PosInf NegInf = NaN"
| "js_plus rnd NegInf PosInf = NaN"
| "js_plus rnd NegInf NegInf = NegInf"

fun js_divide_by :: "rounding \<Rightarrow> js_number \<Rightarrow> nat \<Rightarrow> js_number" where
  "js_divide_by rnd NaN n = NaN"
| "js_divide_by rnd (Finite x) n =
     (if n = 0 then (if x = 0 then NaN else if 0 < x then PosInf else NegInf)
      else rnd (x / real n))"
| "js_divide_by rnd PosInf n = PosInf"
| "js_divide_by rnd NegInf n = NegInf"

fun js_sqrt :: "rounding \<Rightarrow> js_number \<Rightarrow> js_number" where
  "js_sqrt rnd NaN = NaN"
| "js_sqrt rnd (Finite x) = (if x < 0 then NaN else rnd (sqrt x))"
| "js_sqrt rnd PosInf = PosInf"
| "js_sqrt rnd NegInf = NaN"

fun js_min_one :: "js_number \<Rightarrow> js_number" where
  "js_min_one NaN = NaN"
| "js_min_one (Finite x) = Finite (min 1 x)"
| "js_min_one PosInf = Finite 1"
| "js_min_one NegInf = NegInf"

text \<open>
  The loop of \<open>onaudioprocess\<close>: \<^verbatim>\<open>sum += inputData[i] * inputData[i]\<close> from index 0 up. The
  samples are those of a \<^verbatim>\<open>Float32Array\<close>, which can hold the infinities and NaN.
\<close>

fun sum_squares :: "rounding \<Rightarrow> js_number list \<Rightarrow> js_number \<Rightarrow> js_number" where
  "sum_squares rnd [] acc = acc"
| "sum_squares rnd (x # xs) acc = sum_squares rnd xs (js_plus rnd acc (js_times rnd x x))"

text \<open>
  \<^verbatim>\<open>Math.min(1, Math.sqrt(sum / inputData.length) * 5)\<close>. On a frame without samples the
  quotient is \<^verbatim>\<open>0 / 0\<close>, NaN, and so is the result.
\<close>

definition frame_volume :: "rounding \<Rightarrow> js_number list \<Rightarrow> js_number" where
  "frame_volume rnd inputData =
     (let sum = sum_squares rnd inputData (Finite 0);
          rms = js_sqrt rnd (js_divide_by rnd sum (length inputData))
      in js_min_one (js_times rnd rms (Finite 5)))"

text \<open>
  \<open>onaudioprocess\<close>: the volume is set, the frame is packed (\<^verbatim>\<open>createBlob\<close>, of
  \<^verbatim>\<open>utils/audio-utils\<close>) and handed to the session in a continuation of the session promise.
\<close>

definition onaudioprocess :: "rounding \<Rightarrow> js_number list \<Rightarrow> state \<Rightarrow> state" where
  "onaudioprocess rnd inputData s =
     s\<lparr>volume := frame_volume rnd inputData, trace := trace s @ [SendRealtimeInput inputData]\<rparr>"

section \<open>Opening a session\<close>

definition onopen :: "env \<Rightarrow> state \<Rightarrow> state" where
  "onopen e s =
     (let s1 = s\<lparr>isConnected := True\<rparr>
      in (case (inputAudioContextRef s1, mediaStreamRef s1) of
            (Some ctx, Some stream) \<Rightarrow>
              s1\<lparr>scriptProcessorRef := Some (createScriptProcessor e),
                 trace := trace s1 @
                   [CreateScriptProcessor ctx (createMediaStreamSource e) (createScriptProcessor e)]\<rparr>
          | _ \<Rightarrow> s1))"

text \<open>
  What the platform answers during \<open>connect\<close>: the two \<^verbatim>\<open>AudioContext\<close> constructors, the
  \<^verbatim>\<open>GoogleGenAI\<close> constructor, \<^verbatim>\<open>getUserMedia\<close> (resolved with a stream or rejected), and the
  promise \<^verbatim>\<open>ai.live.connect\<close> returns, which the hook stores without awaiting it.
\<close>

record acquisition =
  newInputContext :: "exn + handle"
  newOutputContext :: "exn + handle"
  newGoogleGenAI :: "exn option"
  getUserMedia :: "exn + handle"
  liveConnect :: handle

record props =
  systemInstruction :: string
  voiceName :: string

text \<open>The body of the \<^verbatim>\<open>try\<close> block: the state reached, and what was thrown, if anything.\<close>

definition connect_try :: "acquisition \<Rightarrow> props \<Rightarrow> state \<Rightarrow> exn option \<times> state" where
  "connect_try a p s =
     (let s1 = s\<lparr>error := None, trace := trace s @ [NewAudioContext 16000]\<rparr>
      in (case newInputContext a of
            Inl err \<Rightarrow> (Some err, s1)
          | Inr ic \<Rightarrow>
             (let s2 = s1\<lparr>inputAudioContextRef := Some ic,
                         trace := trace s1 @ [NewAudioContext 24000]\<rparr>
              in (case newOutputContext a of
                    Inl err \<Rightarrow> (Some err, s2)
                  | Inr oc \<Rightarrow>
                     (let s3 = s2\<lparr>outputAudioContextRef := Some oc,
                                 trace := trace s2 @ [NewGoogleGenAI]\<rparr>
                      in (case newGoogleGenAI a of
                            Some err \<Rightarrow> (Some err, s3)
                          | None \<Rightarrow>
                             (let s4 = s3\<lparr>trace := trace s3 @ [GetUserMedia]\<rparr>
                              in (case getUserMedia a of
                                    Inl err \<Rightarrow> (Some err, s4)
                                  | Inr stream \<Rightarrow>
                                      (None, s4\<lparr>mediaStreamRef := Some stream,
                                                sessionPromiseRef := Some (liveConnect a),
                                                trace := trace s4 @
                                                  [LiveConnect (systemInstruction p)
                                                     (voiceName p)]\<rparr>)))))))))"

text \<open>
  \<open>connect\<close>: the previous session is torn down outside the \<^verbatim>\<open>try\<close> block; the \<^verbatim>\<open>catch\<close>
  block sets the error and the connection flag and does nothing else.
\<close>

definition connect :: "env \<Rightarrow> acquisition \<Rightarrow> props \<Rightarrow> state \<Rightarrow> exn option \<times> state" where
  "connect e a p s =
     (case disconnect e s of
        (Some err, s0) \<Rightarrow> (Some err, s0)
      | (None, s0) \<Rightarrow>
          (case connect_try a p s0 of
             (Some err, s1) \<Rightarrow>
               (None, s1\<lparr>error := Some (or_else (exn_message err) ''Failed to connect''),
                         isConnected := False\<rparr>)
           | (None, s1) \<Rightarrow> (None, s1)))"

section \<open>Delivery\<close>

text \<open>
  The session delivers its messages one after the other; a handler call that rejects leaves
  the state it reached, and the next message is handled from there.
\<close>

fun run :: "(env \<times> server_message) list \<Rightarrow> state \<Rightarrow> state" where
  "run [] s = s"
| "run ((e, msg) # rest) s = run rest (snd (onmessage e msg s))"

section \<open>Notions used in the statements\<close>

text \<open>The resources a state holds, and the record of what was done, are those of another.\<close>

definition same_resources :: "state \<Rightarrow> state \<Rightarrow> bool" where
  "same_resources s s' =
     (inputAudioContextRef s' = inputAudioContextRef s \<and>
      outputAudioContextRef s' = outputAudioContextRef s \<and>
      mediaStreamRef s' = mediaStreamRef s \<and>
      scriptProcessorRef s' = scriptProcessorRef s \<and>
      sessionPromiseRef s' = sessionPromiseRef s \<and>
      sourcesRef s' = sourcesRef s \<and>
      nextStartTimeRef s' = nextStartTimeRef s \<and>
      trace s' = trace s)"

text \<open>The operations that release what a state holds, in the order of \<open>disconnect\<close>.\<close>

definition released :: "state \<Rightarrow> effect list" where
  "released s =
     (case inputAudioContextRef s of None \<Rightarrow> [] | Some c \<Rightarrow> [ContextClose c])
     @ (case outputAudioContextRef s of None \<Rightarrow> [] | Some c \<Rightarrow> [ContextClose c])
     @ (case mediaStreamRef s of None \<Rightarrow> [] | Some m \<Rightarrow> [TracksStop m])
     @ (case scriptProcessorRef s of None \<Rightarrow> [] | Some p \<Rightarrow> [ProcessorDisconnect p])
     @ map SourceStop (sourcesRef s)
     @ (case sessionPromiseRef s of None \<Rightarrow> [] | Some p \<Rightarrow> [SessionClose p])"

text \<open>Every resource reference is null and no source is tracked.\<close>

definition holds_nothing :: "state \<Rightarrow> bool" where
  "holds_nothing s =
     (inputAudioContextRef s = None \<and> outputAudioContextRef s = None \<and>
      mediaStreamRef s = None \<and> scriptProcessorRef s = None \<and>
      sessionPromiseRef s = None \<and> sourcesRef s = [])"

text \<open>The first step of the acquisition that fails, in the order \<open>connect\<close> takes them.\<close>

definition first_failure :: "acquisition \<Rightarrow> exn option" where
  "first_failure a =
     (case newInputContext a of
        Inl x \<Rightarrow> Some x
      | Inr ic \<Rightarrow>
          (case newOutputContext a of
             Inl x \<Rightarrow> Some x
           | Inr oc \<Rightarrow>
               (case newGoogleGenAI a of
                  Some x \<Rightarrow> Some x
                | None \<Rightarrow> (case getUserMedia a of Inl x \<Rightarrow> Some x | Inr st \<Rightarrow> None))))"

text \<open>
  Root-mean-square amplitude in the words of the specification: the square root of the mean
  of the squared samples, in exact arithmetic. \<open>frame_volume\<close> above is the loop of the
  source in the arithmetic of the machine.
\<close>

definition rms_amplitude :: "real list \<Rightarrow> real" where
  "rms_amplitude xs = sqrt ((\<Sum>x\<leftarrow>xs. x\<^sup>2) / real (length xs))"

text \<open>A number that is neither negative nor NaN; a finite number and its value.\<close>

fun nonneg :: "js_number \<Rightarrow> bool" where
  "nonneg (Finite x) = (0 \<le> x)"
| "nonneg PosInf = True"
| "nonneg NegInf = False"
| "nonneg NaN = False"

fun is_finite :: "js_number \<Rightarrow> bool" where
  "is_finite (Finite x) = True"
| "is_finite v = False"

fun sample :: "js_number \<Rightarrow> real" where
  "sample (Finite x) = x"
| "sample v = 0"

text \<open>
  What the statements ask of a rounding: the exact result of an operation that is not
  negative is rounded to a number that is not negative (a finite one, or infinity on
  overflow), never to NaN. Rounding to nearest is such a rounding; so is \<open>Finite\<close>, exact
  arithmetic.
\<close>

definition rounds_nonneg :: "rounding \<Rightarrow> bool" where
  "rounds_nonneg rnd = (\<forall>x. 0 \<le> x \<longrightarrow> nonneg (rnd x))"

text \<open>The start times of the sources started so far, oldest first.\<close>

fun starts :: "effect list \<Rightarrow> real list" where
  "starts [] = []"
| "starts (SourceStart src t # tr) = t # starts tr"
| "starts (x # tr) = starts tr"

text \<open>The state after the two transcription branches and the turn-complete branch.\<close>

definition transcribed :: "env \<Rightarrow> server_message \<Rightarrow> state \<Rightarrow> state" where
  "transcribed e msg s =
     handle_turn_complete msg
       (handle_input_transcription e msg (handle_output_transcription e msg s))"

text \<open>
  Messages that carry one thing only: a transcription fragment of a role (the session has
  none for \<open>System\<close>), the end of a turn, an interruption, an audio payload.
\<close>

definition silent :: server_content where
  "silent = \<lparr> modelTurn = None, outputTranscription = None, inputTranscription = None,
              turnComplete = False, interrupted = False \<rparr>"

fun fragment :: "role \<Rightarrow> string \<Rightarrow> server_message" where
  "fragment Model t = Some (silent\<lparr>outputTranscription := Some t\<rparr>)"
| "fragment User t = Some (silent\<lparr>inputTranscription := Some t\<rparr>)"
| "fragment System t = Some silent"

fun fragments :: "role \<Rightarrow> (env \<times> string) list \<Rightarrow> (env \<times> server_message) list" where
  "fragments r [] = []"
| "fragments r ((e, t) # fs) = (e, fragment r t) # fragments r fs"

definition turn_complete_message :: server_message where
  "turn_complete_message = Some (silent\<lparr>turnComplete := True\<rparr>)"

definition interruption_message :: server_message where
  "interruption_message = Some (silent\<lparr>interrupted := True\<rparr>)"

definition audio_message :: "string \<Rightarrow> server_message" where
  "audio_message d = Some (silent\<lparr>modelTurn := Some (Some [Some d])\<rparr>)"

text \<open>The accumulation buffer of a role.\<close>

fun buffer :: "role \<Rightarrow> state \<Rightarrow> string" where
  "buffer Model s = currentOutputTranscriptionRef s"
| "buffer User s = currentInputTranscriptionRef s"
| "buffer System s = []"

text \<open>
  A partial message of a role; the test of the updater in \<open>accumulate\<close>, which looks at the
  last message only; the messages the updater keeps as they are.
\<close>

definition is_partial_of :: "role \<Rightarrow> message \<Rightarrow> bool" where
  "is_partial_of r m = (role m = r \<and> isPartial m = Some True)"

definition extends :: "role \<Rightarrow> message list \<Rightarrow> bool" where
  "extends r prev = (prev \<noteq> [] \<and> is_partial_of r (last prev))"

definition kept :: "role \<Rightarrow> message list \<Rightarrow> message list" where
  "kept r prev = (if extends r prev then butlast prev else prev)"

text \<open>The claim that a role has at most one partial message in a transcript.\<close>

definition at_most_one_partial :: "role \<Rightarrow> message list \<Rightarrow> bool" where
  "at_most_one_partial r ms = (length (filter (is_partial_of r) ms) \<le> 1)"

text \<open>
  \<open>follows a b\<close>: a partial message \<open>a\<close> is followed by a partial message of another role.
  When every message is followed so, the partial messages are the tail of the transcript
  and two neighbours among them differ in role.
\<close>

definition follows :: "message \<Rightarrow> message \<Rightarrow> bool" where
  "follows a b = (isPartial a = Some True \<longrightarrow> isPartial b = Some True \<and> role a \<noteq> role b)"

definition trailing_partials :: "message list \<Rightarrow> bool" where
  "trailing_partials ms = successively follows ms"

text \<open>What identifies a message and never changes: id, role and creation time.\<close>

definition ident :: "message \<Rightarrow> string \<times> role \<times> nat" where
  "ident m = (msg_id m, role m, timestamp m)"

text \<open>
  A platform for the concrete runs below: the clocks read \<open>t\<close>, every payload decodes to a
  buffer of \<open>d\<close> seconds, the next buffer source is the object \<open>src\<close>, and \<^verbatim>\<open>stop()\<close> throws
  on the sources \<open>bad\<close>.
\<close>

definition platform :: "real \<Rightarrow> real \<Rightarrow> handle \<Rightarrow> handle list \<Rightarrow> env" where
  "platform t d src bad =
     \<lparr> currentTime = (\<lambda>c. t), dateNow = 1700, decodeAudioData = (\<lambda>b. Inr d),
       createBufferSource = src, createMediaStreamSource = 90, createScriptProcessor = 91,
       stopThrows = (\<lambda>x. x \<in> set bad) \<rparr>"

section \<open>Properties of teardown\<close>

lemma stop_sources_trace: "stop_sources e xs tr = tr @ map SourceStop xs"
  by (induction xs arbitrary: tr) (auto split: sum.splits)

lemmas teardown_defs = close_input_context_def close_output_context_def
  stop_media_stream_def disconnect_processor_def stop_all_sources_def close_session_def

lemma disconnect_frame:
  "disconnect e s =
     (None, s\<lparr>isConnected := False, volume := Finite 0,
              inputAudioContextRef := None, outputAudioContextRef := None,
              mediaStreamRef := None, scriptProcessorRef := None, sessionPromiseRef := None,
              sourcesRef := [], currentInputTranscriptionRef := [],
              currentOutputTranscriptionRef := [],
              trace := trace s
                @ (case inputAudioContextRef s of None \<Rightarrow> [] | Some c \<Rightarrow> [ContextClose c])
                @ (case outputAudioContextRef s of None \<Rightarrow> [] | Some c \<Rightarrow> [ContextClose c])
                @ (case mediaStreamRef s of None \<Rightarrow> [] | Some m \<Rightarrow> [TracksStop m])
                @ (case scriptProcessorRef s of None \<Rightarrow> [] | Some p \<Rightarrow> [ProcessorDisconnect p])
                @ map SourceStop (sourcesRef s)
                @ (case sessionPromiseRef s of None \<Rightarrow> [] | Some p \<Rightarrow> [SessionClose p])\<rparr>)"
  by (simp add: disconnect_def Let_def teardown_defs stop_sources_trace split: option.splits)

text \<open>
  Claim C10. \<open>disconnect\<close> leaves the transcript as it is, for every message list: no message
  is removed, finalised or changed. It does not touch the error or the playback timeline
  either. What it resets is the connection flag, the volume, the two accumulation buffers,
  the five resource references and the tracked sources; the record of operations grows by
  the releases.
\<close>

theorem disconnect_keeps_transcript:
  "fst (disconnect e s) = None \<and> messages (snd (disconnect e s)) = messages s \<and>
   error (snd (disconnect e s)) = error s \<and>
   nextStartTimeRef (snd (disconnect e s)) = nextStartTimeRef s \<and>
   (\<exists>tr. snd (disconnect e s) =
      s\<lparr>isConnected := False, volume := Finite 0,
        inputAudioContextRef := None, outputAudioContextRef := None,
        mediaStreamRef := None, scriptProcessorRef := None, sessionPromiseRef := None,
        sourcesRef := [], currentInputTranscriptionRef := [],
        currentOutputTranscriptionRef := [], trace := tr\<rparr>)"
  unfolding disconnect_frame by (simp, rule exI, rule refl)

text \<open>
  Claim C9. A remote error or close event changes the connection flag (and, for an error,
  the error message) and nothing else: the microphone stream, the audio contexts, the script
  processor, the tracked sources, the timeline and the session handle are those of before,
  and no operation is performed. They are still there for \<open>disconnect\<close>, which releases
  exactly what the state before the event held.
\<close>

theorem error_and_close_release_nothing:
  "same_resources s (onerror m s) \<and> same_resources s (onclose s) \<and>
   isConnected (onerror m s) = False \<and> isConnected (onclose s) = False \<and>
   error (onclose s) = error s \<and>
   messages (onerror m s) = messages s \<and> messages (onclose s) = messages s \<and>
   volume (onerror m s) = volume s \<and> volume (onclose s) = volume s \<and>
   trace (snd (disconnect e (onerror m s))) = trace s @ released s \<and>
   trace (snd (disconnect e (onclose s))) = trace s @ released s"
  by (simp add: same_resources_def onerror_def onclose_def disconnect_frame released_def)

theorem error_and_close_release_nothing_witness:
  "trace (onerror (Some ''lost'')
      (initial\<lparr>mediaStreamRef := Some 3, sessionPromiseRef := Some 4\<rparr>)) = [] \<and>
   trace (snd (disconnect (platform 0 1 7 []) (onclose
      (initial\<lparr>mediaStreamRef := Some 3, sessionPromiseRef := Some 4\<rparr>))))
     = [TracksStop 3, SessionClose 4]"
  using error_and_close_release_nothing
    [of "initial\<lparr>mediaStreamRef := Some 3, sessionPromiseRef := Some 4\<rparr>" "Some ''lost''"
        "platform 0 1 7 []"]
  by (simp add: same_resources_def released_def initial_def)

text \<open>
  Claim C6. \<open>disconnect\<close> throws in no state, whatever \<^verbatim>\<open>stop()\<close> does on the sources. After
  it every resource reference is null and no source is tracked, so a second call in a row
  returns the very same state: it performs no operation. The same holds before any
  \<open>connect\<close>, in the initial state, and in every state that holds nothing.
\<close>

theorem disconnect_idempotent:
  "fst (disconnect e s) = None \<and>
   holds_nothing (snd (disconnect e s)) \<and>
   disconnect e' (snd (disconnect e s)) = (None, snd (disconnect e s)) \<and>
   holds_nothing initial \<and>
   disconnect e initial = (None, initial) \<and>
   (holds_nothing s \<longrightarrow> trace (snd (disconnect e s)) = trace s)"
  by (simp add: disconnect_frame holds_nothing_def initial_def)

theorem disconnect_idempotent_witness:
  "holds_nothing (onclose initial) \<and>
   trace (snd (disconnect (platform 0 1 7 [7]) (onclose initial))) = []"
  using disconnect_idempotent [of "platform 0 1 7 [7]" "onclose initial"]
  by (simp add: holds_nothing_def initial_def onclose_def)

section \<open>Failures\<close>

lemma or_else_nonempty: "d \<noteq> [] \<Longrightarrow> or_else m d \<noteq> []"
  by (cases m) auto

lemma connect_try_failure:
  assumes "first_failure a = Some x"
  shows "\<exists>s1. connect_try a p s = (Some x, s1) \<and> sessionPromiseRef s1 = sessionPromiseRef s \<and>
           prefix (drop (length (trace s)) (trace s1))
             [NewAudioContext 16000, NewAudioContext 24000, NewGoogleGenAI, GetUserMedia]"
  using assms
  by (auto simp: first_failure_def connect_try_def Let_def split: sum.splits option.splits)

text \<open>
  Claim C7. When a step of the acquisition in \<open>connect\<close> fails (an audio context or the
  client cannot be built, or \<^verbatim>\<open>getUserMedia\<close> is rejected), \<open>connect\<close> returns with one error
  message set: the failure's own message, or \<^verbatim>\<open>Failed to connect\<close> when it has none; the
  message is never empty. The connection flag is false, no session handle is stored, and what
  \<open>connect\<close> did after the teardown is an initial part of the four acquisition steps, each
  at most once and without a session request: nothing is tried again. A remote error event
  sets one non-empty message (\<^verbatim>\<open>An error occurred\<close> by default) and the flag to false,
  performs no operation and leaves the session handle alone.
\<close>

theorem failure_surfaces_one_error:
  "(first_failure a = Some x \<longrightarrow>
      (\<exists>s'. connect e a p s = (None, s') \<and>
            error s' = Some (or_else (exn_message x) ''Failed to connect'') \<and>
            or_else (exn_message x) ''Failed to connect'' \<noteq> [] \<and>
            isConnected s' = False \<and> sessionPromiseRef s' = None \<and>
            prefix (drop (length (trace (snd (disconnect e s)))) (trace s'))
              [NewAudioContext 16000, NewAudioContext 24000, NewGoogleGenAI, GetUserMedia])) \<and>
   error (onerror m s) = Some (or_else m ''An error occurred'') \<and>
   or_else m ''An error occurred'' \<noteq> [] \<and>
   isConnected (onerror m s) = False \<and>
   trace (onerror m s) = trace s \<and>
   sessionPromiseRef (onerror m s) = sessionPromiseRef s"
proof -
  have acq: "\<exists>s'. connect e a p s = (None, s') \<and>
            error s' = Some (or_else (exn_message x) ''Failed to connect'') \<and>
            isConnected s' = False \<and> sessionPromiseRef s' = None \<and>
            prefix (drop (length (trace (snd (disconnect e s)))) (trace s'))
              [NewAudioContext 16000, NewAudioContext 24000, NewGoogleGenAI, GetUserMedia]"
    if f: "first_failure a = Some x"
  proof -
    obtain s0 where d: "disconnect e s = (None, s0)" and sp: "sessionPromiseRef s0 = None"
      by (simp add: disconnect_frame)
    from connect_try_failure [OF f, of p s0] obtain s1 where
      t: "connect_try a p s0 = (Some x, s1)" and sp1: "sessionPromiseRef s1 = sessionPromiseRef s0"
      and pre: "prefix (drop (length (trace s0)) (trace s1))
             [NewAudioContext 16000, NewAudioContext 24000, NewGoogleGenAI, GetUserMedia]"
      by blast
    show ?thesis
      using d t sp sp1 pre by (simp add: connect_def)
  qed
  have msg: "or_else y d \<noteq> []" if "d \<noteq> []" for y d
    using that by (rule or_else_nonempty)
  show ?thesis
    using acq by (simp add: onerror_def msg)
qed

theorem failure_surfaces_one_error_witness:
  "first_failure \<lparr>newInputContext = Inr 1, newOutputContext = Inr 2, newGoogleGenAI = None,
      getUserMedia = Inl (Exn (Some ''Permission denied'')), liveConnect = 5\<rparr>
     = Some (Exn (Some ''Permission denied'')) \<and>
   (\<exists>s'. connect (platform 0 1 7 [])
        \<lparr>newInputContext = Inr 1, newOutputContext = Inr 2, newGoogleGenAI = None,
          getUserMedia = Inl (Exn (Some ''Permission denied'')), liveConnect = 5\<rparr>
        \<lparr>systemInstruction = ''Be a game master'', voiceName = ''Zephyr''\<rparr> initial = (None, s') \<and>
      error s' = Some ''Permission denied'' \<and> isConnected s' = False \<and>
      sessionPromiseRef s' = None) \<and>
   error (onerror None initial) = Some ''An error occurred''"
proof -
  have f: "first_failure \<lparr>newInputContext = Inr 1, newOutputContext = Inr 2,
      newGoogleGenAI = None, getUserMedia = Inl (Exn (Some ''Permission denied'')),
      liveConnect = 5\<rparr> = Some (Exn (Some ''Permission denied''))"
    by (simp add: first_failure_def)
  show ?thesis
    using f failure_surfaces_one_error
      [of "\<lparr>newInputContext = Inr 1, newOutputContext = Inr 2, newGoogleGenAI = None,
             getUserMedia = Inl (Exn (Some ''Permission denied'')), liveConnect = 5\<rparr>"
          "Exn (Some ''Permission denied'')" "platform 0 1 7 []"
          "\<lparr>systemInstruction = ''Be a game master'', voiceName = ''Zephyr''\<rparr>" initial None]
    by auto
qed

section \<open>Loudness\<close>

lemma nonneg_square: "rounds_nonneg rnd \<Longrightarrow> x \<noteq> NaN \<Longrightarrow> nonneg (js_times rnd x x)"
  by (cases x) (simp_all add: rounds_nonneg_def)

lemma nonneg_plus: "rounds_nonneg rnd \<Longrightarrow> nonneg a \<Longrightarrow> nonneg b \<Longrightarrow> nonneg (js_plus rnd a b)"
  by (cases a; cases b) (simp_all add: rounds_nonneg_def)

lemma nonneg_sum_squares:
  "rounds_nonneg rnd \<Longrightarrow> NaN \<notin> set xs \<Longrightarrow> nonneg acc \<Longrightarrow> nonneg (sum_squares rnd xs acc)"
proof (induction xs arbitrary: acc)
  case Nil
  then show ?case by simp
next
  case (Cons x xs)
  from Cons.prems have x: "x \<noteq> NaN" and rest: "NaN \<notin> set xs" by auto
  have "nonneg (js_plus rnd acc (js_times rnd x x))"
    using Cons.prems(1,3) nonneg_square [OF Cons.prems(1) x] by (rule nonneg_plus)
  with Cons.IH [OF Cons.prems(1) rest] show ?case by simp
qed

lemma nonneg_divide_by:
  "rounds_nonneg rnd \<Longrightarrow> nonneg a \<Longrightarrow> 0 < n \<Longrightarrow> nonneg (js_divide_by rnd a n)"
  by (cases a) (simp_all add: rounds_nonneg_def)

lemma nonneg_sqrt: "rounds_nonneg rnd \<Longrightarrow> nonneg a \<Longrightarrow> nonneg (js_sqrt rnd a)"
  by (cases a) (simp_all add: rounds_nonneg_def)

lemma nonneg_gain: "rounds_nonneg rnd \<Longrightarrow> nonneg a \<Longrightarrow> nonneg (js_times rnd a (Finite 5))"
  by (cases a) (simp_all add: rounds_nonneg_def)

lemma min_one_unit: "nonneg a \<Longrightarrow> \<exists>v. js_min_one a = Finite v \<and> 0 \<le> v \<and> v \<le> 1"
  by (cases a) simp_all

lemma frame_volume_unit:
  assumes "rounds_nonneg rnd" and "inputData \<noteq> []" and "NaN \<notin> set inputData"
  shows "\<exists>v. frame_volume rnd inputData = Finite v \<and> 0 \<le> v \<and> v \<le> 1"
proof -
  have "nonneg (sum_squares rnd inputData (Finite 0))"
    using assms(1,3) by (rule nonneg_sum_squares) simp
  then have "nonneg (js_divide_by rnd (sum_squares rnd inputData (Finite 0)) (length inputData))"
    using assms(1,2) by (simp add: nonneg_divide_by)
  then have "nonneg (js_times rnd
      (js_sqrt rnd (js_divide_by rnd (sum_squares rnd inputData (Finite 0)) (length inputData)))
      (Finite 5))"
    using assms(1) by (simp add: nonneg_sqrt nonneg_gain)
  then show ?thesis
    unfolding frame_volume_def Let_def by (rule min_one_unit)
qed

lemma sum_squares_exact:
  "\<forall>x \<in> set xs. is_finite x \<Longrightarrow>
     sum_squares Finite xs (Finite acc) = Finite (acc + (\<Sum>x\<leftarrow>map sample xs. x\<^sup>2))"
proof (induction xs arbitrary: acc)
  case Nil
  then show ?case by simp
next
  case (Cons x xs)
  then obtain y where "x = Finite y" by (cases x) simp_all
  with Cons show ?case by (simp add: power2_eq_square)
qed

lemma frame_volume_exact:
  assumes "inputData \<noteq> []" and "\<forall>x \<in> set inputData. is_finite x"
  shows "frame_volume Finite inputData = Finite (min 1 (rms_amplitude (map sample inputData) * 5))"
proof -
  have "0 \<le> (\<Sum>x\<leftarrow>map sample inputData. x\<^sup>2)"
    by (rule sum_list_nonneg) auto
  then have "\<not> (\<Sum>x\<leftarrow>map sample inputData. x\<^sup>2) / real (length inputData) < 0"
    by (simp add: not_less)
  then show ?thesis
    using assms by (simp add: frame_volume_def Let_def sum_squares_exact rms_amplitude_def)
qed

text \<open>
  Claim C8, as the code has it. For every frame that has samples, none of them NaN, the
  volume \<open>onaudioprocess\<close> sets is a finite number between 0 and 1, whatever the rounding of
  the machine's arithmetic (as long as it rounds no result that is not negative to a
  negative number or to NaN). It is the root-mean-square amplitude of the frame times the
  gain 5, cut off at 1, computed in that arithmetic: when the samples are finite and the
  arithmetic is exact, it equals that value, and clamping it from below at 0 changes nothing.
\<close>

theorem volume_is_clamped_rms:
  assumes "inputData \<noteq> []" and "NaN \<notin> set inputData" and "rounds_nonneg rnd"
  shows "(\<exists>v. volume (onaudioprocess rnd inputData s) = Finite v \<and> 0 \<le> v \<and> v \<le> 1) \<and>
         ((\<forall>x \<in> set inputData. is_finite x) \<longrightarrow>
            volume (onaudioprocess Finite inputData s)
              = Finite (min 1 (rms_amplitude (map sample inputData) * 5)) \<and>
            min 1 (rms_amplitude (map sample inputData) * 5)
              = max 0 (min 1 (rms_amplitude (map sample inputData) * 5)))"
proof -
  have unit: "\<exists>v. volume (onaudioprocess rnd inputData s) = Finite v \<and> 0 \<le> v \<and> v \<le> 1"
    using frame_volume_unit [OF assms(3,1,2)] by (simp add: onaudioprocess_def)
  have exact: "volume (onaudioprocess Finite inputData s)
      = Finite (min 1 (rms_amplitude (map sample inputData) * 5))"
    if "\<forall>x \<in> set inputData. is_finite x"
    using frame_volume_exact [OF assms(1) that] by (simp add: onaudioprocess_def)
  have "0 \<le> (\<Sum>x\<leftarrow>map sample inputData. x\<^sup>2)"
    by (rule sum_list_nonneg) auto
  then have "0 \<le> rms_amplitude (map sample inputData)"
    by (simp add: rms_amplitude_def)
  then have "min 1 (rms_amplitude (map sample inputData) * 5)
      = max 0 (min 1 (rms_amplitude (map sample inputData) * 5))"
    by simp
  with unit exact show ?thesis by blast
qed

theorem volume_is_clamped_rms_witness:
  "[Finite (1/10), Finite (1/10)] \<noteq> [] \<and> NaN \<notin> set [Finite (1/10), Finite (1/10)] \<and>
   rounds_nonneg Finite \<and>
   volume (onaudioprocess Finite [Finite (1/10), Finite (1/10)] initial) = Finite (1/2)"
proof -
  have r: "sqrt (1/100) = 1/10"
    by (rule real_sqrt_unique) (simp_all add: power2_eq_square)
  have a: "rms_amplitude (map sample [Finite (1/10), Finite (1/10)]) = 1/10"
    by (simp add: rms_amplitude_def power2_eq_square r)
  have n: "rounds_nonneg Finite"
    by (simp add: rounds_nonneg_def)
  have h: "[Finite (1/10), Finite (1/10)] \<noteq> []" "NaN \<notin> set [Finite (1/10), Finite (1/10)]"
    by simp_all
  show ?thesis
    using volume_is_clamped_rms [OF h n, of initial] a n by simp
qed

text \<open>
  Claim C8 as stated fails on a frame that holds a NaN sample: the volume is NaN, which is
  not in the unit interval.
\<close>

theorem volume_nan_sample_counterexample:
  "[Finite (1/2), NaN] \<noteq> [] \<and>
   volume (onaudioprocess Finite [Finite (1/2), NaN] initial) = NaN"
  by (simp add: onaudioprocess_def frame_volume_def)

section \<open>Playback\<close>

lemmas handler_defs = onmessage_def handle_audio_def base64Audio_def
  handle_output_transcription_def handle_input_transcription_def handle_turn_complete_def
  handle_interrupted_def is_turn_complete_def is_interrupted_def reset_timeline_def
  stop_all_sources_def accumulate_def finalize_def set_add_def source_stop_def Let_def

lemmas message_defs = silent_def turn_complete_message_def interruption_message_def
  audio_message_def

lemma transcribed_playback [simp]:
  "trace (transcribed e msg s) = trace s"
  "sourcesRef (transcribed e msg s) = sourcesRef s"
  "nextStartTimeRef (transcribed e msg s) = nextStartTimeRef s"
  "outputAudioContextRef (transcribed e msg s) = outputAudioContextRef s"
  by (simp_all add: transcribed_def handle_turn_complete_def handle_input_transcription_def
      handle_output_transcription_def Let_def split: option.splits)

lemma onmessage_transcribed:
  "onmessage e msg s =
     (case handle_audio e msg s of
        (Some err, s1) \<Rightarrow> (Some err, s1)
      | (None, s1) \<Rightarrow> (None, handle_interrupted e msg (transcribed e msg s1)))"
  by (simp add: onmessage_def transcribed_def split: prod.splits option.splits)

lemma handle_audio_context [simp]:
  "outputAudioContextRef (snd (handle_audio e msg s)) = outputAudioContextRef s"
  by (simp add: handle_audio_def Let_def split: sum.splits option.splits)

lemma handle_audio_sources: "set (sourcesRef s) \<subseteq> set (sourcesRef (snd (handle_audio e msg s)))"
  by (auto simp: handle_audio_def Let_def set_add_def split: sum.splits option.splits)

lemma handle_audio_trace: "prefix (trace s) (trace (snd (handle_audio e msg s)))"
  by (auto simp: handle_audio_def Let_def split: sum.splits option.splits)

lemma handle_audio_messages [simp]: "messages (snd (handle_audio e msg s)) = messages s"
  by (simp add: handle_audio_def Let_def split: sum.splits option.splits)

lemma handle_interrupted_skip: "\<not> is_interrupted msg \<Longrightarrow> handle_interrupted e msg s = s"
  by (simp add: handle_interrupted_def)

lemma handle_audio_fragment [simp]: "handle_audio e (fragment r t) s = (None, s)"
  by (cases r) (simp_all add: handle_audio_def base64Audio_def silent_def)

lemma fragment_flags [simp]:
  "\<not> is_turn_complete (fragment r t)" "\<not> is_interrupted (fragment r t)"
  by (cases r; simp add: is_turn_complete_def is_interrupted_def silent_def)+

lemma onmessage_fragment:
  "onmessage e (fragment r t) s =
     (None, handle_input_transcription e (fragment r t)
              (handle_output_transcription e (fragment r t) s))"
  by (simp add: onmessage_def handle_turn_complete_def handle_interrupted_def)

lemma fragment_trace: "trace (snd (onmessage e (fragment r t) s)) = trace s"
  unfolding onmessage_fragment
  by (simp add: handle_output_transcription_def handle_input_transcription_def Let_def
      split: option.splits)

lemma starts_append [simp]: "starts (a @ b) = starts a @ starts b"
  by (induction a rule: starts.induct) simp_all

lemma starts_stops [simp]: "starts (map SourceStop xs) = []"
  by (induction xs) simp_all

lemma handle_audio_scheduled:
  assumes "base64Audio msg = Inr (Some d)" and "d \<noteq> []"
    and "outputAudioContextRef s = Some ctx" and "decodeAudioData e d = Inr duration"
  shows "handle_audio e msg s =
    (None, s\<lparr>trace := trace s @
                 [SourceStart (createBufferSource e) (max (nextStartTimeRef s) (currentTime e ctx))],
             nextStartTimeRef := max (nextStartTimeRef s) (currentTime e ctx) + duration,
             sourcesRef := set_add (createBufferSource e) (sourcesRef s)\<rparr>)"
  using assms by (simp add: handle_audio_def Let_def)

lemma handle_audio_timeline:
  "\<exists>ex. starts (trace (snd (handle_audio e msg s))) = starts (trace s) @ ex \<and>
        (ex = [] \<longrightarrow> nextStartTimeRef s \<le> nextStartTimeRef (snd (handle_audio e msg s)))"
  by (auto simp: handle_audio_def Let_def split: sum.splits option.splits)

lemma onmessage_timeline:
  assumes "\<not> is_interrupted msg"
  shows "\<exists>ex. starts (trace (snd (onmessage e msg s))) = starts (trace s) @ ex \<and>
        (ex = [] \<longrightarrow> nextStartTimeRef s \<le> nextStartTimeRef (snd (onmessage e msg s)))"
proof -
  obtain r s1 where h: "handle_audio e msg s = (r, s1)"
    by (cases "handle_audio e msg s")
  have "trace (snd (onmessage e msg s)) = trace s1 \<and>
        nextStartTimeRef (snd (onmessage e msg s)) = nextStartTimeRef s1"
    using assms h by (cases r) (simp_all add: onmessage_transcribed handle_interrupted_skip)
  then show ?thesis
    using handle_audio_timeline [of e msg s] h by simp
qed

lemma onmessage_context [simp]:
  "outputAudioContextRef (snd (onmessage e msg s)) = outputAudioContextRef s"
proof -
  obtain r s1 where h: "handle_audio e msg s = (r, s1)"
    by (cases "handle_audio e msg s")
  have "outputAudioContextRef s1 = outputAudioContextRef s"
    using handle_audio_context [of e msg s] h by simp
  then show ?thesis
    using h
    by (cases r) (simp_all add: onmessage_transcribed handle_interrupted_def Let_def
        stop_all_sources_def reset_timeline_def split: option.splits)
qed

lemma run_context [simp]: "outputAudioContextRef (run ms s) = outputAudioContextRef s"
  by (induction ms s rule: run.induct) simp_all

lemma run_starts:
  "\<forall>(e, m) \<in> set ms. \<not> is_interrupted m \<Longrightarrow>
   \<exists>ex. starts (trace (run ms s)) = starts (trace s) @ ex"
proof (induction ms s rule: run.induct)
  case (1 s)
  then show ?case by simp
next
  case (2 e msg rest s)
  from 2 have ni: "\<not> is_interrupted msg" by simp
  from onmessage_timeline [OF ni, of e s] obtain ex1 where
    a: "starts (trace (snd (onmessage e msg s))) = starts (trace s) @ ex1" by blast
  from 2 obtain ex2 where
    b: "starts (trace (run rest (snd (onmessage e msg s))))
        = starts (trace (snd (onmessage e msg s))) @ ex2" by auto
  show ?case using a b by simp
qed

lemma run_timeline:
  "\<forall>(e, m) \<in> set ms. \<not> is_interrupted m \<Longrightarrow>
   starts (trace (run ms s)) = starts (trace s) \<Longrightarrow>
   nextStartTimeRef s \<le> nextStartTimeRef (run ms s)"
proof (induction ms s rule: run.induct)
  case (1 s)
  then show ?case by simp
next
  case (2 e msg rest s)
  let ?s1 = "snd (onmessage e msg s)"
  from 2 have ni: "\<not> is_interrupted msg" and nr: "\<forall>(e, m) \<in> set rest. \<not> is_interrupted m"
    by simp_all
  from onmessage_timeline [OF ni, of e s] obtain ex1 where
    a: "starts (trace ?s1) = starts (trace s) @ ex1"
    and a': "ex1 = [] \<longrightarrow> nextStartTimeRef s \<le> nextStartTimeRef ?s1" by blast
  from run_starts [OF nr, of ?s1] obtain ex2 where
    b: "starts (trace (run rest ?s1)) = starts (trace ?s1) @ ex2" by blast
  from 2(3) a b have e: "ex1 = []" "ex2 = []" by simp_all
  with a b have "starts (trace (run rest ?s1)) = starts (trace ?s1)" by simp
  with 2(1) nr have "nextStartTimeRef ?s1 \<le> nextStartTimeRef (run rest ?s1)" by simp
  with a' e show ?case by simp
qed

lemma onmessage_scheduled:
  assumes "base64Audio msg = Inr (Some d)" and "d \<noteq> []"
    and "outputAudioContextRef s = Some ctx" and "decodeAudioData e d = Inr duration"
    and "\<not> is_interrupted msg"
  shows "trace (snd (onmessage e msg s)) = trace s @
           [SourceStart (createBufferSource e) (max (nextStartTimeRef s) (currentTime e ctx))]"
    and "nextStartTimeRef (snd (onmessage e msg s))
           = max (nextStartTimeRef s) (currentTime e ctx) + duration"
  using assms(5)
  by (simp_all add: onmessage_transcribed handle_audio_scheduled [OF assms(1-4)]
      handle_interrupted_skip)

lemma onmessage_starts:
  "starts (trace (snd (onmessage e msg s))) = starts (trace (snd (handle_audio e msg s)))"
proof -
  obtain x s1 where h: "handle_audio e msg s = (x, s1)"
    by (cases "handle_audio e msg s")
  show ?thesis
    using h
    by (cases x) (simp_all add: onmessage_transcribed handle_interrupted_def Let_def
        stop_all_sources_def reset_timeline_def stop_sources_trace split: option.splits)
qed

text \<open>
  Claim C4. A message whose audio payload is decoded, handled while an output context
  exists, starts its source at the maximum of the timeline and the context's clock, and the
  timeline then advances by the duration of the decoded buffer. When unit A is followed by
  unit B, with messages in between that are no interruption and start no source, B starts
  no earlier than A's start plus A's duration.
\<close>

theorem playback_units_do_not_overlap:
  assumes ctx: "outputAudioContextRef s = Some ctx"
    and A: "base64Audio msgA = Inr (Some dA)" "dA \<noteq> []" "decodeAudioData eA dA = Inr durationA"
    and niA: "\<not> is_interrupted msgA"
    and mid: "\<forall>(e, m) \<in> set between. \<not> is_interrupted m"
      "starts (trace (run between (snd (onmessage eA msgA s))))
         = starts (trace (snd (onmessage eA msgA s)))"
    and B: "base64Audio msgB = Inr (Some dB)" "dB \<noteq> []" "decodeAudioData eB dB = Inr durationB"
  shows "\<exists>startA startB.
      startA = max (nextStartTimeRef s) (currentTime eA ctx) \<and>
      starts (trace (snd (onmessage eA msgA s))) = starts (trace s) @ [startA] \<and>
      nextStartTimeRef (snd (onmessage eA msgA s)) = startA + durationA \<and>
      startB = max (nextStartTimeRef (run between (snd (onmessage eA msgA s)))) (currentTime eB ctx) \<and>
      starts (trace (snd (onmessage eB msgB (run between (snd (onmessage eA msgA s))))))
        = starts (trace s) @ [startA, startB] \<and>
      (\<not> is_interrupted msgB \<longrightarrow>
         nextStartTimeRef (snd (onmessage eB msgB (run between (snd (onmessage eA msgA s)))))
           = startB + durationB) \<and>
      startA + durationA \<le> startB"
proof -
  let ?s1 = "snd (onmessage eA msgA s)"
  let ?s2 = "run between ?s1"
  let ?a = "max (nextStartTimeRef s) (currentTime eA ctx)"
  let ?b = "max (nextStartTimeRef ?s2) (currentTime eB ctx)"
  have s1: "trace ?s1 = trace s @ [SourceStart (createBufferSource eA) ?a]"
    "nextStartTimeRef ?s1 = ?a + durationA"
    using onmessage_scheduled [OF A(1,2) ctx A(3) niA] by simp_all
  have ctx2: "outputAudioContextRef ?s2 = Some ctx"
    using ctx by simp
  have mono: "nextStartTimeRef ?s1 \<le> nextStartTimeRef ?s2"
    using mid by (rule run_timeline)
  have s3: "trace (snd (handle_audio eB msgB ?s2))
        = trace ?s2 @ [SourceStart (createBufferSource eB) ?b]"
    by (simp add: handle_audio_scheduled [OF B(1,2) ctx2 B(3)])
  have s3': "nextStartTimeRef (snd (onmessage eB msgB ?s2)) = ?b + durationB"
    if "\<not> is_interrupted msgB"
    using onmessage_scheduled(2) [OF B(1,2) ctx2 B(3) that] .
  have "starts (trace (snd (onmessage eB msgB ?s2))) = starts (trace s) @ [?a, ?b]"
    using s3 mid(2) s1(1) by (simp add: onmessage_starts)
  moreover have "?a + durationA \<le> ?b"
    using mono s1(2) by simp
  ultimately show ?thesis
    using s1 s3' by simp
qed

theorem playback_units_do_not_overlap_witness:
  "starts (trace (snd (onmessage (platform 2 3 8 []) (audio_message ''QkE='')
      (run [(platform 2 1 9 [], fragment Model ''Hi'')]
        (snd (onmessage (platform 1 2 7 []) (audio_message ''QUI='')
          (initial\<lparr>outputAudioContextRef := Some 2\<rparr>))))))) = [1, 3] \<and>
   nextStartTimeRef (snd (onmessage (platform 2 3 8 []) (audio_message ''QkE='')
      (run [(platform 2 1 9 [], fragment Model ''Hi'')]
        (snd (onmessage (platform 1 2 7 []) (audio_message ''QUI='')
          (initial\<lparr>outputAudioContextRef := Some 2\<rparr>)))))) = 6"
proof -
  let ?s = "initial\<lparr>outputAudioContextRef := Some 2\<rparr>"
  let ?sA = "snd (onmessage (platform 1 2 7 []) (audio_message ''QUI='') ?s)"
  have ctx: "outputAudioContextRef ?s = Some 2" by simp
  have a: "base64Audio (audio_message ''QUI='') = Inr (Some ''QUI='')" "''QUI='' \<noteq> []"
    "decodeAudioData (platform 1 2 7 []) ''QUI='' = Inr 2"
    by (simp_all add: base64Audio_def message_defs platform_def)
  have b: "base64Audio (audio_message ''QkE='') = Inr (Some ''QkE='')" "''QkE='' \<noteq> []"
    "decodeAudioData (platform 2 3 8 []) ''QkE='' = Inr 3"
    by (simp_all add: base64Audio_def message_defs platform_def)
  have ni: "\<not> is_interrupted (audio_message ''QUI='')" "\<not> is_interrupted (audio_message ''QkE='')"
    by (simp_all add: is_interrupted_def message_defs)
  have m1: "\<forall>(e, m) \<in> set [(platform 2 1 9 [], fragment Model ''Hi'')]. \<not> is_interrupted m"
    by (simp add: is_interrupted_def silent_def)
  have m2: "starts (trace (run [(platform 2 1 9 [], fragment Model ''Hi'')] ?sA))
      = starts (trace ?sA)"
    by (simp only: run.simps fragment_trace)
  show ?thesis
    using playback_units_do_not_overlap [OF ctx a ni(1) m1 m2 b] ni(2)
    by (simp add: initial_def platform_def handler_defs message_defs)
qed

text \<open>
  Claim C5. A message flagged as interrupted, when its handler runs through, stops every
  source that is tracked at that point (those tracked before the message and the one the
  message itself may have started), with \<^verbatim>\<open>stop()\<close> called on each whether it throws or not;
  the tracked set is empty afterwards, and the timeline is the clock of the output context
  when there is one.
\<close>

theorem interruption_stops_playback:
  assumes "is_interrupted msg" and "onmessage e msg s = (None, s')"
  shows "sourcesRef s' = [] \<and>
         (\<exists>s1. handle_audio e msg s = (None, s1) \<and> set (sourcesRef s) \<subseteq> set (sourcesRef s1) \<and>
               prefix (trace s) (trace s1) \<and>
               trace s' = trace s1 @ map SourceStop (sourcesRef s1)) \<and>
         (\<forall>src \<in> set (sourcesRef s). SourceStop src \<in> set (drop (length (trace s)) (trace s'))) \<and>
         (\<forall>ctx. outputAudioContextRef s = Some ctx \<longrightarrow> nextStartTimeRef s' = currentTime e ctx)"
proof -
  obtain r s1 where h: "handle_audio e msg s = (r, s1)"
    by (cases "handle_audio e msg s")
  with assms(2) have r: "r = None"
    by (cases r) (simp_all add: onmessage_transcribed)
  from assms(2) h r have s': "s' = handle_interrupted e msg (transcribed e msg s1)"
    by (simp add: onmessage_transcribed)
  have sub: "set (sourcesRef s) \<subseteq> set (sourcesRef s1)"
    using handle_audio_sources [of s e msg] h by simp
  have pre: "prefix (trace s) (trace s1)"
    using handle_audio_trace [of s e msg] h by simp
  have ctx: "outputAudioContextRef s1 = outputAudioContextRef s"
    using handle_audio_context [of e msg s] h by simp
  have tr: "trace s' = trace s1 @ map SourceStop (sourcesRef s1)"
    using assms(1)
    by (simp add: s' handle_interrupted_def Let_def reset_timeline_def stop_all_sources_def
        stop_sources_trace split: option.splits)
  have src: "sourcesRef s' = []"
    using assms(1)
    by (simp add: s' handle_interrupted_def Let_def reset_timeline_def stop_all_sources_def
        split: option.splits)
  have tl: "nextStartTimeRef s' = currentTime e c" if "outputAudioContextRef s = Some c" for c
    using assms(1) that ctx
    by (simp add: s' handle_interrupted_def Let_def reset_timeline_def stop_all_sources_def)
  have stopped: "SourceStop x \<in> set (drop (length (trace s)) (trace s'))"
    if "x \<in> set (sourcesRef s)" for x
  proof -
    from pre obtain ex where ex: "trace s1 = trace s @ ex"
      by (auto simp: prefix_def)
    from that sub have "x \<in> set (sourcesRef s1)" by blast
    then show ?thesis
      by (simp add: tr ex)
  qed
  show ?thesis
    using src h r sub pre tr tl stopped by simp
qed

theorem interruption_stops_playback_witness:
  "is_interrupted interruption_message \<and>
   sourcesRef (snd (onmessage (platform 4 1 9 [8]) interruption_message
      (initial\<lparr>outputAudioContextRef := Some 2, sourcesRef := [7, 8],
               nextStartTimeRef := 9\<rparr>))) = [] \<and>
   trace (snd (onmessage (platform 4 1 9 [8]) interruption_message
      (initial\<lparr>outputAudioContextRef := Some 2, sourcesRef := [7, 8],
               nextStartTimeRef := 9\<rparr>))) = [SourceStop 7, SourceStop 8] \<and>
   nextStartTimeRef (snd (onmessage (platform 4 1 9 [8]) interruption_message
      (initial\<lparr>outputAudioContextRef := Some 2, sourcesRef := [7, 8],
               nextStartTimeRef := 9\<rparr>))) = 4"
proof -
  let ?s = "initial\<lparr>outputAudioContextRef := Some 2, sourcesRef := [7, 8],
               nextStartTimeRef := 9\<rparr>"
  let ?e = "platform 4 1 9 [8]"
  have i: "is_interrupted interruption_message"
    by (simp add: is_interrupted_def message_defs)
  have h: "handle_audio ?e interruption_message ?s = (None, ?s)"
    by (simp add: handle_audio_def base64Audio_def message_defs)
  have r: "onmessage ?e interruption_message ?s
      = (None, snd (onmessage ?e interruption_message ?s))"
    by (simp add: onmessage_def h)
  show ?thesis
    using i h interruption_stops_playback [OF i r]
    by (simp add: initial_def platform_def)
qed

section \<open>Transcript\<close>

lemma accumulate_kept:
  "\<exists>m. accumulate r buf now prev = kept r prev @ [m] \<and> is_partial_of r m \<and> msg_text m = buf"
  by (simp add: accumulate_def kept_def extends_def is_partial_of_def)

lemma accumulate_extends:
  "extends r prev \<Longrightarrow>
     accumulate r buf now prev = butlast prev @ [(last prev)\<lparr>msg_text := buf\<rparr>]"
  by (simp add: accumulate_def extends_def is_partial_of_def)

lemma accumulate_appends:
  "\<not> extends r prev \<Longrightarrow>
     accumulate r buf now prev =
       prev @ [\<lparr>msg_id = toString now, role = r, msg_text = buf, timestamp = now,
                isPartial = Some True\<rparr>]"
  by (auto simp: accumulate_def extends_def is_partial_of_def)

lemma accumulate_after_final:
  assumes "\<forall>m \<in> set prev. isPartial m = Some False"
  shows "accumulate r buf now prev =
    prev @ [\<lparr>msg_id = toString now, role = r, msg_text = buf, timestamp = now,
             isPartial = Some True\<rparr>]"
proof (cases "prev = []")
  case True
  then show ?thesis by (simp add: accumulate_def)
next
  case False
  then have "last prev \<in> set prev" by simp
  with assms have "isPartial (last prev) = Some False" by blast
  then show ?thesis by (simp add: accumulate_def)
qed

lemma fragment_empty: "snd (onmessage e (fragment r []) s) = s"
  unfolding onmessage_fragment
  by (cases r) (simp_all add: handle_output_transcription_def
      handle_input_transcription_def silent_def)

lemma fragment_step:
  assumes "r \<noteq> System" and "t \<noteq> []"
  shows "messages (snd (onmessage e (fragment r t) s))
           = accumulate r (buffer r s @ t) (dateNow e) (messages s)"
    and "buffer r (snd (onmessage e (fragment r t) s)) = buffer r s @ t"
  using assms unfolding onmessage_fragment
  by (cases r; simp add: handle_output_transcription_def
      handle_input_transcription_def silent_def Let_def)+

lemma run_without_text: "concat (map snd fs) = [] \<Longrightarrow> run (fragments r fs) s = s"
proof (induction fs arbitrary: s)
  case Nil
  then show ?case by simp
next
  case (Cons p fs)
  obtain e t where p: "p = (e, t)" by (cases p)
  from Cons.prems p have t: "t = []" and rest: "concat (map snd fs) = []" by simp_all
  show ?case
    using Cons.IH [OF rest] by (simp add: p t fragment_empty)
qed

lemma kept_snoc: "is_partial_of r m \<Longrightarrow> kept r (xs @ [m]) = xs"
  by (simp add: kept_def extends_def)

lemma run_fragments:
  assumes "r \<noteq> System"
  shows "concat (map snd fs) \<noteq> [] \<Longrightarrow>
    \<exists>m. messages (run (fragments r fs) s) = kept r (messages s) @ [m] \<and>
        is_partial_of r m \<and> msg_text m = buffer r s @ concat (map snd fs)"
proof (induction fs arbitrary: s)
  case Nil
  then show ?case by simp
next
  case (Cons p fs)
  obtain e t where p: "p = (e, t)" by (cases p)
  let ?s1 = "snd (onmessage e (fragment r t) s)"
  show ?case
  proof (cases "t = []")
    case True
    with Cons p show ?thesis by (simp add: fragment_empty)
  next
    case False
    from accumulate_kept [of r "buffer r s @ t" "dateNow e" "messages s"]
    obtain m1 where m1: "messages ?s1 = kept r (messages s) @ [m1]" "is_partial_of r m1"
      "msg_text m1 = buffer r s @ t"
      using fragment_step(1) [OF assms False, of e s] by auto
    have buf: "buffer r ?s1 = buffer r s @ t"
      using fragment_step(2) [OF assms False] .
    show ?thesis
    proof (cases "concat (map snd fs) = []")
      case True
      then show ?thesis
        using m1 p by (simp add: run_without_text)
    next
      case False
      from Cons.IH [OF False, of ?s1] obtain m where
        "messages (run (fragments r fs) ?s1) = kept r (messages ?s1) @ [m]"
        "is_partial_of r m" "msg_text m = buffer r ?s1 @ concat (map snd fs)"
        by blast
      then show ?thesis
        using m1 buf p by (simp add: kept_snoc)
    qed
  qed
qed

text \<open>
  Claim C1, as the code has it. A fragment with empty text is skipped by the handler. For
  fragments of one role (user or model), at least one of them with text, delivered in a row
  from a state whose buffer for the role is empty, the transcript ends in one message for
  the sequence: it is partial, has the role, and its text is the concatenation of the
  fragments' texts in arrival order. The messages before it are those of the transcript at
  the start (without its last message when that was a partial message of the role, which
  the new text replaces). When none of them is a partial message of the role, the transcript
  has exactly one.
\<close>

theorem fragments_accumulate:
  assumes "r \<noteq> System" and "buffer r s = []" and "concat (map snd fs) \<noteq> []"
  shows "\<exists>m. messages (run (fragments r fs) s) = kept r (messages s) @ [m] \<and>
             role m = r \<and> isPartial m = Some True \<and> msg_text m = concat (map snd fs) \<and>
             ((\<forall>x \<in> set (kept r (messages s)). \<not> is_partial_of r x) \<longrightarrow>
                filter (is_partial_of r) (messages (run (fragments r fs) s)) = [m])"
proof -
  from run_fragments [OF assms(1,3), of s] obtain m where
    m: "messages (run (fragments r fs) s) = kept r (messages s) @ [m]" "is_partial_of r m"
      "msg_text m = buffer r s @ concat (map snd fs)"
    by blast
  have "filter (is_partial_of r) (kept r (messages s)) = []"
    if "\<forall>x \<in> set (kept r (messages s)). \<not> is_partial_of r x"
    using that by (simp add: filter_empty_conv)
  then show ?thesis
    using m assms(2) by (auto simp: is_partial_of_def)
qed

theorem fragments_accumulate_witness:
  "Model \<noteq> System \<and> buffer Model initial = [] \<and>
   map msg_text (messages (run (fragments Model
      [(platform 0 1 7 [], ''Wel''), (platform 0 1 7 [], []), (platform 0 1 7 [], ''come.'')])
      initial)) = [''Welcome.''] \<and>
   map isPartial (messages (run (fragments Model
      [(platform 0 1 7 [], ''Wel''), (platform 0 1 7 [], []), (platform 0 1 7 [], ''come.'')])
      initial)) = [Some True]"
  using fragments_accumulate [of Model initial
      "[(platform 0 1 7 [], ''Wel''), (platform 0 1 7 [], []), (platform 0 1 7 [], ''come.'')]"]
  by (auto simp: initial_def kept_def extends_def)

text \<open>
  Claim C1 as stated fails on a fragment whose text is empty: no message is produced.
\<close>

theorem fragments_empty_text_counterexample:
  "buffer Model initial = [] \<and>
   filter (is_partial_of Model)
     (messages (run (fragments Model [(platform 0 1 7 [], [])]) initial)) = []"
  by (simp add: handler_defs message_defs initial_def platform_def)

lemma finalize_final: "\<forall>m \<in> set (finalize ms). isPartial m = Some False"
  by (simp add: finalize_def)

lemma turn_end_state:
  assumes "is_turn_complete msg \<or> is_interrupted msg"
  shows "\<exists>ms. messages (handle_interrupted e msg (handle_turn_complete msg s)) = finalize ms"
    and "currentInputTranscriptionRef (handle_interrupted e msg (handle_turn_complete msg s)) = []"
    and "currentOutputTranscriptionRef (handle_interrupted e msg (handle_turn_complete msg s)) = []"
  using assms
  by (auto simp: handle_interrupted_def handle_turn_complete_def Let_def reset_timeline_def
      stop_all_sources_def split: option.splits)

text \<open>
  Claim C2, as the code has it. After a message flagged turn complete or interrupted, when
  its handler runs through, every message is final and both buffers are empty; the next
  fragment with text, of either role, is appended as a new partial message whose text is
  that fragment's text, and the messages before it stay as they are.
\<close>

theorem turn_end_finalises:
  assumes "is_turn_complete msg \<or> is_interrupted msg" and "onmessage e msg s = (None, s')"
  shows "(\<forall>m \<in> set (messages s'). isPartial m = Some False) \<and>
         currentInputTranscriptionRef s' = [] \<and> currentOutputTranscriptionRef s' = [] \<and>
         (\<forall>r t e'. r \<noteq> System \<and> t \<noteq> [] \<longrightarrow>
            messages (snd (onmessage e' (fragment r t) s')) =
              messages s' @ [\<lparr>msg_id = toString (dateNow e'), role = r, msg_text = t,
                               timestamp = dateNow e', isPartial = Some True\<rparr>])"
proof -
  obtain x s1 where h: "handle_audio e msg s = (x, s1)"
    by (cases "handle_audio e msg s")
  with assms(2) have x: "x = None"
    by (cases x) (simp_all add: onmessage_def)
  let ?s2 = "handle_input_transcription e msg (handle_output_transcription e msg s1)"
  from assms(2) h x have s': "s' = handle_interrupted e msg (handle_turn_complete msg ?s2)"
    by (simp add: onmessage_def)
  from turn_end_state(1) [OF assms(1), of e ?s2] obtain ms where "messages s' = finalize ms"
    unfolding s' by blast
  then have fin: "\<forall>m \<in> set (messages s'). isPartial m = Some False"
    by (simp add: finalize_final)
  have bi: "currentInputTranscriptionRef s' = []" and bo: "currentOutputTranscriptionRef s' = []"
    unfolding s' using turn_end_state(2,3) [OF assms(1)] by simp_all
  have b: "buffer r s' = []" for r
    using bi bo by (cases r) simp_all
  have nxt: "messages (snd (onmessage e' (fragment r t) s')) =
              messages s' @ [\<lparr>msg_id = toString (dateNow e'), role = r, msg_text = t,
                               timestamp = dateNow e', isPartial = Some True\<rparr>]"
    if "r \<noteq> System" "t \<noteq> []" for r t e'
    using fragment_step(1) [OF that, of e' s'] accumulate_after_final [OF fin] b by simp
  show ?thesis
    using fin bi bo nxt by blast
qed

theorem turn_end_finalises_witness:
  "is_interrupted interruption_message \<and>
   onmessage (platform 0 1 7 []) interruption_message
      (initial\<lparr>messages := [\<lparr>msg_id = ''1700'', role = Model, msg_text = ''Hi'',
                               timestamp = 1700, isPartial = Some True\<rparr>],
               currentOutputTranscriptionRef := ''Hi''\<rparr>)
     = (None, initial\<lparr>messages := [\<lparr>msg_id = ''1700'', role = Model, msg_text = ''Hi'',
                               timestamp = 1700, isPartial = Some False\<rparr>]\<rparr>) \<and>
   messages (snd (onmessage (platform 0 1 7 []) (fragment Model ''Go'')
      (initial\<lparr>messages := [\<lparr>msg_id = ''1700'', role = Model, msg_text = ''Hi'',
                               timestamp = 1700, isPartial = Some False\<rparr>]\<rparr>)))
     = [\<lparr>msg_id = ''1700'', role = Model, msg_text = ''Hi'', timestamp = 1700,
          isPartial = Some False\<rparr>,
        \<lparr>msg_id = toString 1700, role = Model, msg_text = ''Go'', timestamp = 1700,
          isPartial = Some True\<rparr>]"
proof -
  have i: "is_interrupted interruption_message"
    by (simp add: is_interrupted_def message_defs)
  have r: "onmessage (platform 0 1 7 []) interruption_message
      (initial\<lparr>messages := [\<lparr>msg_id = ''1700'', role = Model, msg_text = ''Hi'',
                               timestamp = 1700, isPartial = Some True\<rparr>],
               currentOutputTranscriptionRef := ''Hi''\<rparr>)
     = (None, initial\<lparr>messages := [\<lparr>msg_id = ''1700'', role = Model, msg_text = ''Hi'',
                               timestamp = 1700, isPartial = Some False\<rparr>]\<rparr>)"
    by (simp add: handler_defs message_defs initial_def platform_def)
  have n: "\<forall>r t e'. r \<noteq> System \<and> t \<noteq> [] \<longrightarrow>
     messages (snd (onmessage e' (fragment r t)
        (initial\<lparr>messages := [\<lparr>msg_id = ''1700'', role = Model, msg_text = ''Hi'',
                               timestamp = 1700, isPartial = Some False\<rparr>]\<rparr>))) =
       messages (initial\<lparr>messages := [\<lparr>msg_id = ''1700'', role = Model, msg_text = ''Hi'',
                               timestamp = 1700, isPartial = Some False\<rparr>]\<rparr>)
         @ [\<lparr>msg_id = toString (dateNow e'), role = r, msg_text = t,
              timestamp = dateNow e', isPartial = Some True\<rparr>]"
    using turn_end_finalises [OF disjI2 [OF i] r] by blast
  show ?thesis
    using i r n [rule_format, of Model "''Go''" "platform 0 1 7 []"]
    by (simp add: platform_def)
qed

text \<open>
  Claim C2 as stated fails on a next fragment whose text is empty: the transcript stays as
  it is and no message is started.
\<close>

theorem empty_fragment_after_turn_end_counterexample:
  "messages (run [(platform 0 1 7 [], fragment Model ''Hi''),
                  (platform 0 1 7 [], turn_complete_message),
                  (platform 0 1 7 [], fragment User [])] initial)
   = messages (run [(platform 0 1 7 [], fragment Model ''Hi''),
                    (platform 0 1 7 [], turn_complete_message)] initial) \<and>
   length (messages (run [(platform 0 1 7 [], fragment Model ''Hi''),
                  (platform 0 1 7 [], turn_complete_message),
                  (platform 0 1 7 [], fragment User [])] initial)) = 1"
  by (simp add: handler_defs message_defs initial_def platform_def)

lemma trailing_finalize: "trailing_partials (finalize ms)"
proof -
  have "successively (\<lambda>x y. True) ms"
    by (induction ms rule: induct_list012) simp_all
  then show ?thesis
    by (simp add: trailing_partials_def finalize_def successively_map follows_def)
qed

lemma trailing_accumulate:
  assumes "trailing_partials prev"
  shows "trailing_partials (accumulate r buf now prev)"
proof (cases "extends r prev")
  case True
  then have split: "prev = butlast prev @ [last prev]"
    by (simp add: extends_def)
  from assms have "successively follows (butlast prev @ [last prev])"
    using split by (simp add: trailing_partials_def)
  then have "successively follows (butlast prev @ [(last prev)\<lparr>msg_text := buf\<rparr>])"
    by (simp add: successively_append_iff follows_def)
  then show ?thesis
    by (simp add: accumulate_extends [OF True] trailing_partials_def)
next
  case False
  then have "prev \<noteq> [] \<longrightarrow> follows (last prev)
      \<lparr>msg_id = toString now, role = r, msg_text = buf, timestamp = now, isPartial = Some True\<rparr>"
    by (auto simp: follows_def extends_def is_partial_of_def)
  with assms show ?thesis
    by (auto simp: accumulate_appends [OF False] trailing_partials_def successively_append_iff)
qed

lemma ident_finalize: "map ident (finalize ms) = map ident ms"
  by (simp add: finalize_def ident_def)

lemma ident_accumulate: "prefix (map ident prev) (map ident (accumulate r buf now prev))"
proof (cases "extends r prev")
  case True
  then have "map ident prev = map ident (butlast prev @ [last prev])"
    by (simp add: extends_def)
  also have "\<dots> = map ident (butlast prev @ [(last prev)\<lparr>msg_text := buf\<rparr>])"
    by (simp add: ident_def)
  finally show ?thesis
    by (simp add: accumulate_extends [OF True])
next
  case False
  then show ?thesis
    by (simp add: accumulate_appends)
qed

lemma transcription_trailing:
  "trailing_partials (messages s) \<Longrightarrow>
     trailing_partials (messages (handle_output_transcription e msg s))"
  "trailing_partials (messages s) \<Longrightarrow>
     trailing_partials (messages (handle_input_transcription e msg s))"
  by (simp_all add: handle_output_transcription_def handle_input_transcription_def Let_def
      trailing_accumulate split: option.splits)

lemma turn_end_trailing:
  "trailing_partials (messages s) \<Longrightarrow> trailing_partials (messages (handle_turn_complete msg s))"
  "trailing_partials (messages s) \<Longrightarrow> trailing_partials (messages (handle_interrupted e msg s))"
  by (simp_all add: handle_turn_complete_def handle_interrupted_def Let_def trailing_finalize
      reset_timeline_def stop_all_sources_def split: option.splits)

lemma onmessage_trailing:
  assumes "trailing_partials (messages s)"
  shows "trailing_partials (messages (snd (onmessage e msg s)))"
proof -
  obtain x s1 where h: "handle_audio e msg s = (x, s1)"
    by (cases "handle_audio e msg s")
  have "messages s1 = messages s"
    using handle_audio_messages [of e msg s] h by simp
  with assms have t: "trailing_partials (messages s1)" by simp
  show ?thesis
    using h t
    by (cases x) (simp_all add: onmessage_def transcription_trailing turn_end_trailing)
qed

lemma transcription_ident:
  "prefix (map ident (messages s)) (map ident (messages (handle_output_transcription e msg s)))"
  "prefix (map ident (messages s)) (map ident (messages (handle_input_transcription e msg s)))"
  by (simp_all add: handle_output_transcription_def handle_input_transcription_def Let_def
      ident_accumulate split: option.splits)

lemma turn_end_ident:
  "map ident (messages (handle_turn_complete msg s)) = map ident (messages s)"
  "map ident (messages (handle_interrupted e msg s)) = map ident (messages s)"
  by (simp_all add: handle_turn_complete_def handle_interrupted_def Let_def ident_finalize
      reset_timeline_def stop_all_sources_def split: option.splits)

lemma onmessage_ident:
  "prefix (map ident (messages s)) (map ident (messages (snd (onmessage e msg s))))"
proof -
  obtain x s1 where h: "handle_audio e msg s = (x, s1)"
    by (cases "handle_audio e msg s")
  have m: "messages s1 = messages s"
    using handle_audio_messages [of e msg s] h by simp
  have "prefix (map ident (messages s1))
     (map ident (messages (handle_input_transcription e msg
        (handle_output_transcription e msg s1))))"
    using transcription_ident(1) [of s1 e msg]
      transcription_ident(2) [of "handle_output_transcription e msg s1" e msg]
    by (rule prefix_order.trans)
  then show ?thesis
    using h m by (cases x) (simp_all add: onmessage_def turn_end_ident)
qed

lemma run_trailing:
  "trailing_partials (messages s) \<Longrightarrow> trailing_partials (messages (run ms s))"
  by (induction ms s rule: run.induct) (simp_all add: onmessage_trailing)

lemma run_ident: "prefix (map ident (messages s)) (map ident (messages (run ms s)))"
proof (induction ms s rule: run.induct)
  case (1 s)
  then show ?case by simp
next
  case (2 e msg rest s)
  have "prefix (map ident (messages s))
      (map ident (messages (run rest (snd (onmessage e msg s)))))"
    using onmessage_ident [of s e msg] "2.IH" by (rule prefix_order.trans)
  then show ?case by simp
qed

text \<open>
  Claim C3, as the code has it. In every state reached from the initial one by any messages,
  a partial message is followed only by partial messages, and by one of another role: the
  partial messages are the tail of the transcript and no two neighbours among them have the
  same role. Messages keep their order: the identities (id, role, creation time) of the
  transcript before a run are an initial part of those after it.
\<close>

theorem transcript_invariant:
  "trailing_partials (messages (run ms initial)) \<and>
   prefix (map ident (messages s)) (map ident (messages (run ms s))) \<and>
   (trailing_partials (messages s) \<longrightarrow> trailing_partials (messages (run ms s)))"
  using run_trailing [of initial ms] run_trailing [of s ms] run_ident [of s ms]
  by (simp add: initial_def trailing_partials_def)

theorem transcript_invariant_witness:
  "trailing_partials
      (messages (run [(platform 0 1 7 [], fragment Model ''a''),
                      (platform 0 1 7 [], fragment User ''b''),
                      (platform 0 1 7 [], fragment Model ''c'')] initial)) \<and>
   map role
      (messages (run [(platform 0 1 7 [], fragment Model ''a''),
                      (platform 0 1 7 [], fragment User ''b''),
                      (platform 0 1 7 [], fragment Model ''c'')] initial))
     = [Model, User, Model]"
  using transcript_invariant [of "[(platform 0 1 7 [], fragment Model ''a''),
                      (platform 0 1 7 [], fragment User ''b''),
                      (platform 0 1 7 [], fragment Model ''c'')]" initial]
  by (simp add: handler_defs message_defs initial_def platform_def)

text \<open>
  Claim C3 as stated fails when the roles alternate within a turn: model, user, model gives
  two partial messages of the model.
\<close>

theorem alternating_roles_counterexample:
  "\<not> at_most_one_partial Model
      (messages (run [(platform 0 1 7 [], fragment Model ''a''),
                      (platform 0 1 7 [], fragment User ''b''),
                      (platform 0 1 7 [], fragment Model ''c'')] initial)) \<and>
   map msg_text
      (messages (run [(platform 0 1 7 [], fragment Model ''a''),
                      (platform 0 1 7 [], fragment User ''b''),
                      (platform 0 1 7 [], fragment Model ''c'')] initial))
     = [''a'', ''b'', ''ac'']"
  by (simp add: handler_defs message_defs initial_def platform_def at_most_one_partial_def
      is_partial_of_def)

end
